theory Spec2Isabelle
  imports Complex_Main "HOL-Library.Multiset" "HOL-Library.Product_Lexorder"
begin

section \<open>NeuroSched: data model\<close>

text \<open>
  The cluster simulator's data model, from \<^verbatim>\<open>api/schemas.py\<close>. Python's unbounded
  integers are \<open>int\<close>. The float fields of jobs and events (timestamps, durations) are
  modelled as \<open>real\<close>: the finite doubles are real numbers, and comparisons on them are
  exact. Infinities and NaN are outside the model. Where a theorem below evaluates float
  arithmetic of the engine, the operands and results are small integers, on which double
  arithmetic is exact.
  An \<^verbatim>\<open>Optional[float]\<close> field is a \<open>real option\<close>. Objects the code mutates in place
  are passed in and returned updated.
\<close>

datatype error = ValueError | TypeError | IndexError | StopIteration

record Job =
  job_id :: string
  tenant_id :: string
  cpu :: int
  ram :: int
  gpus :: int
  priority :: string
  arrival_time :: real
  start_time :: "real option"
  end_time :: "real option"
  preemption_time :: "real option"
  last_start_time :: "real option"
  remaining_time :: "real option"
  duration :: real
  wait_time :: "real option"
  state :: string

record Node =
  node_id :: string
  total_cpu :: int
  total_ram :: int
  total_gpus :: int
  used_cpu :: int
  used_ram :: int
  used_gpus :: int
  running_jobs :: "string list"

text \<open>Truthiness of an \<^verbatim>\<open>Optional[float]\<close>: \<^verbatim>\<open>None\<close> and \<^verbatim>\<open>0.0\<close> are falsy.\<close>

definition truthy :: "real option \<Rightarrow> bool" where
  "truthy v = (case v of None \<Rightarrow> False | Some x \<Rightarrow> x \<noteq> 0)"

subsection \<open>Node: admission, allocation, release\<close>

definition can_allocate :: "Node \<Rightarrow> Job \<Rightarrow> bool" where
  "can_allocate n j =
     (total_cpu n - used_cpu n \<ge> cpu j
      \<and> total_ram n - used_ram n \<ge> ram j
      \<and> total_gpus n - used_gpus n \<ge> gpus j)"

text \<open>
  \<^verbatim>\<open>Node.allocate\<close> raises \<^verbatim>\<open>ValueError\<close> before it touches the node, or updates the
  node. The result is the exception raised (if any) and the node object after the call.
\<close>

definition allocate :: "Node \<Rightarrow> Job \<Rightarrow> error option \<times> Node" where
  "allocate n j =
     (if \<not> can_allocate n j then (Some ValueError, n)
      else (None,
            n\<lparr>used_cpu := used_cpu n + cpu j,
              used_ram := used_ram n + ram j,
              used_gpus := used_gpus n + gpus j,
              running_jobs := running_jobs n @ [job_id j]\<rparr>))"

text \<open>\<^verbatim>\<open>list.remove\<close> deletes the first occurrence: \<open>remove1\<close>.\<close>

definition release :: "Node \<Rightarrow> Job \<Rightarrow> Node" where
  "release n j =
     (if job_id j \<in> set (running_jobs n)
      then n\<lparr>used_cpu := used_cpu n - cpu j,
             used_ram := used_ram n - ram j,
             used_gpus := used_gpus n - gpus j,
             running_jobs := remove1 (job_id j) (running_jobs n)\<rparr>
      else n)"

section \<open>Scheduler policies: victim search\<close>

text \<open>
  The running-jobs list holds tuples \<^verbatim>\<open>(finish_time, job, node)\<close>. The node of a tuple is
  a reference to one of the cluster's node objects, shared with the cluster list and with
  the other tuples on that node; the model keeps the nodes in the cluster list and lets a
  tuple hold the node's position there. The job of a tuple is held by value: a job object
  lives in one container at a time (ready queue, running list, or a completed list).
\<close>

type_synonym running_entry = "real \<times> Job \<times> nat"

text \<open>\<^verbatim>\<open>priority_value\<close>: the dictionary lookup with default 0.\<close>

definition priority_value :: "string \<Rightarrow> int" where
  "priority_value p =
     (if p = ''low'' then 1 else if p = ''med'' then 2 else if p = ''high'' then 3 else 0)"

text \<open>\<^verbatim>\<open>FIFOScheduler.find_victim\<close>: the first tuple, in list order, that passes both tests.\<close>

fun fifo_find_victim :: "Job \<Rightarrow> running_entry list \<Rightarrow> Node list \<Rightarrow> running_entry option" where
  "fifo_find_victim incoming_job [] cluster = None"
| "fifo_find_victim incoming_job ((finish_time, victim_job, node) # rest) cluster =
     (if priority_value (priority victim_job) < priority_value (priority incoming_job)
      then (if used_cpu (cluster ! node) - cpu victim_job + cpu incoming_job
                 \<le> total_cpu (cluster ! node)
               \<and> used_ram (cluster ! node) - ram victim_job + ram incoming_job
                 \<le> total_ram (cluster ! node)
               \<and> used_gpus (cluster ! node) - gpus victim_job + gpus incoming_job
                 \<le> total_gpus (cluster ! node)
            then Some (finish_time, victim_job, node)
            else fifo_find_victim incoming_job rest cluster)
      else fifo_find_victim incoming_job rest cluster)"

text \<open>
  \<^verbatim>\<open>ShortestTimeFirstScheduler.find_victim\<close>. \<^verbatim>\<open>remaining_time\<close> is an optional float:
  ordering \<^verbatim>\<open>None\<close> against a float raises \<^verbatim>\<open>TypeError\<close>, and the first comparison of the
  test is \<^verbatim>\<open><\<close>, so a missing remaining time on either side raises as soon as a tuple is
  examined.
\<close>

fun stf_find_victim ::
  "Job \<Rightarrow> running_entry list \<Rightarrow> Node list \<Rightarrow> error + running_entry option" where
  "stf_find_victim incoming_job [] cluster = Inr None"
| "stf_find_victim incoming_job ((finish_time, victim_job, node) # rest) cluster =
     (case (remaining_time incoming_job, remaining_time victim_job) of
        (Some ri, Some rv) \<Rightarrow>
          (if ri < rv
              \<or> (ri = rv
                  \<and> priority_value (priority incoming_job) > priority_value (priority victim_job))
           then (if used_cpu (cluster ! node) - cpu victim_job + cpu incoming_job
                      \<le> total_cpu (cluster ! node)
                    \<and> used_ram (cluster ! node) - ram victim_job + ram incoming_job
                      \<le> total_ram (cluster ! node)
                    \<and> used_gpus (cluster ! node) - gpus victim_job + gpus incoming_job
                      \<le> total_gpus (cluster ! node)
                 then Inr (Some (finish_time, victim_job, node))
                 else stf_find_victim incoming_job rest cluster)
           else stf_find_victim incoming_job rest cluster)
      | _ \<Rightarrow> Inl TypeError)"

text \<open>
  The two victim tests as predicates on a running tuple, used to state what the searches
  return. \<open>fifo_preemptable\<close>: the victim's priority is strictly lower than the incoming
  job's and the victim's node has room in all three dimensions once the victim is swapped
  out and the incoming job in. \<open>stf_preemptable\<close>: the incoming job's remaining time is
  smaller, or equal with strictly higher priority, and the same swap test holds.
\<close>

definition fifo_preemptable :: "Job \<Rightarrow> Node list \<Rightarrow> running_entry \<Rightarrow> bool" where
  "fifo_preemptable inc cl e = (case e of (ft, v, n) \<Rightarrow>
     priority_value (priority v) < priority_value (priority inc)
     \<and> used_cpu (cl ! n) - cpu v + cpu inc \<le> total_cpu (cl ! n)
     \<and> used_ram (cl ! n) - ram v + ram inc \<le> total_ram (cl ! n)
     \<and> used_gpus (cl ! n) - gpus v + gpus inc \<le> total_gpus (cl ! n))"

definition stf_preemptable :: "Job \<Rightarrow> Node list \<Rightarrow> running_entry \<Rightarrow> bool" where
  "stf_preemptable inc cl e = (case e of (ft, v, n) \<Rightarrow>
     (case (remaining_time inc, remaining_time v) of
        (Some ri, Some rv) \<Rightarrow>
          (ri < rv \<or> (ri = rv \<and> priority_value (priority inc) > priority_value (priority v)))
          \<and> used_cpu (cl ! n) - cpu v + cpu inc \<le> total_cpu (cl ! n)
          \<and> used_ram (cl ! n) - ram v + ram inc \<le> total_ram (cl ! n)
          \<and> used_gpus (cl ! n) - gpus v + gpus inc \<le> total_gpus (cl ! n)
      | _ \<Rightarrow> False))"

section \<open>Job generator: the inter-arrival draw\<close>

record SimulationConfig =
  runtime_seconds :: int
  num_tenants :: int
  cluster_nodes :: int
  per_node_cpu :: int
  per_node_ram :: int
  per_node_gpus :: int
  arrival_model :: string
  arrival_rate :: real
  duration_range :: "int \<times> int"
  cpu_request_range :: "int \<times> int"
  ram_request_range :: "int \<times> int"
  gpu_request_range :: "int \<times> int"
  priority_distribution :: "(string \<times> real) list"
  scheduler_choice :: string
  preemption_enabled :: bool

text \<open>
  The first statement of the loop body of \<^verbatim>\<open>JobGenerator._generate_loop\<close>:
  \<^verbatim>\<open>interval = random.expovariate(self.config.arrival_rate)\<close>. The argument
  \<open>expovariate\<close> stands for that call of the random module: given the rate, the sample it
  returns this time (any non-negative float). No other field of the configuration is read
  before the draw.
\<close>

definition generate_interval :: "SimulationConfig \<Rightarrow> (real \<Rightarrow> real) \<Rightarrow> real" where
  "generate_interval config expovariate = expovariate (arrival_rate config)"

section \<open>The heapq module\<close>

text \<open>
  The event queue and the running-jobs list are kept in heap order by Python's
  \<^verbatim>\<open>heapq\<close>. The functions below follow CPython's \<^verbatim>\<open>Lib/heapq.py\<close>: the heap is a
  list, the parent of position \<open>k > 0\<close> is at \<open>(k - 1) div 2\<close> and its children are at
  \<open>2k + 1\<close> and \<open>2k + 2\<close>. The comparison \<^verbatim>\<open><\<close> of the items is the parameter \<open>lt\<close>;
  it can raise (ordering two job objects is a \<^verbatim>\<open>TypeError\<close>), and an exception raised by
  a comparison ends the call.
\<close>

text \<open>
  \<^verbatim>\<open>_siftdown(heap, startpos, pos)\<close>: the item at \<open>pos\<close> is taken out and the parents
  larger than it are moved down into the hole until the item fits. \<open>siftdown_loop\<close> is the
  \<^verbatim>\<open>while pos > startpos\<close> loop together with the final \<^verbatim>\<open>heap[pos] = newitem\<close>.
\<close>

function siftdown_loop ::
  "('a \<Rightarrow> 'a \<Rightarrow> error + bool) \<Rightarrow> 'a list \<Rightarrow> nat \<Rightarrow> nat \<Rightarrow> 'a \<Rightarrow> error + 'a list" where
  "siftdown_loop lt heap startpos pos newitem =
     (if pos > startpos
      then (let parentpos = (pos - 1) div 2;
                parent = heap ! parentpos
            in case lt newitem parent of
                 Inl e \<Rightarrow> Inl e
               | Inr smaller \<Rightarrow>
                   if smaller
                   then siftdown_loop lt (heap[pos := parent]) startpos parentpos newitem
                   else Inr (heap[pos := newitem]))
      else Inr (heap[pos := newitem]))"
  by pat_completeness auto
termination
  by (relation "measure (\<lambda>(lt, heap, startpos, pos, newitem). pos)") auto

definition siftdown ::
  "('a \<Rightarrow> 'a \<Rightarrow> error + bool) \<Rightarrow> 'a list \<Rightarrow> nat \<Rightarrow> nat \<Rightarrow> error + 'a list" where
  "siftdown lt heap startpos pos = siftdown_loop lt heap startpos pos (heap ! pos)"

text \<open>
  \<^verbatim>\<open>_siftup(heap, pos)\<close>: the smaller child is moved up into the hole until a leaf is
  reached (\<open>siftup_loop\<close> returns the list and the position of the hole), the item is put
  there and sifted down again. When there is no right child the test
  \<^verbatim>\<open>rightpos < endpos and not heap[childpos] < heap[rightpos]\<close> makes no comparison.
\<close>

function siftup_loop ::
  "('a \<Rightarrow> 'a \<Rightarrow> error + bool) \<Rightarrow> 'a list \<Rightarrow> nat \<Rightarrow> error + ('a list \<times> nat)" where
  "siftup_loop lt heap pos =
     (let endpos = length heap; childpos = 2 * pos + 1
      in if childpos < endpos
         then (let rightpos = childpos + 1
               in case (if rightpos < endpos then lt (heap ! childpos) (heap ! rightpos)
                        else Inr True) of
                    Inl e \<Rightarrow> Inl e
                  | Inr left_smaller \<Rightarrow>
                      if left_smaller
                      then siftup_loop lt (heap[pos := heap ! childpos]) childpos
                      else siftup_loop lt (heap[pos := heap ! rightpos]) rightpos)
         else Inr (heap, pos))"
  by pat_completeness auto
termination
  by (relation "measure (\<lambda>(lt, heap, pos). length heap - pos)") auto

definition siftup ::
  "('a \<Rightarrow> 'a \<Rightarrow> error + bool) \<Rightarrow> 'a list \<Rightarrow> nat \<Rightarrow> error + 'a list" where
  "siftup lt heap pos =
     (let newitem = heap ! pos
      in case siftup_loop lt heap pos of
           Inl e \<Rightarrow> Inl e
         | Inr (heap', pos') \<Rightarrow> siftdown lt (heap'[pos' := newitem]) pos pos')"

text \<open>
  \<^verbatim>\<open>heappush\<close>, \<^verbatim>\<open>heappop\<close> (popping from an empty list raises \<^verbatim>\<open>IndexError\<close>) and
  \<^verbatim>\<open>heapify\<close>, which sifts the positions \<open>n div 2 - 1, \<dots>, 0\<close> in that order.
\<close>

definition heappush ::
  "('a \<Rightarrow> 'a \<Rightarrow> error + bool) \<Rightarrow> 'a list \<Rightarrow> 'a \<Rightarrow> error + 'a list" where
  "heappush lt heap item = siftdown lt (heap @ [item]) 0 (length heap)"

definition heappop ::
  "('a \<Rightarrow> 'a \<Rightarrow> error + bool) \<Rightarrow> 'a list \<Rightarrow> error + ('a \<times> 'a list)" where
  "heappop lt heap =
     (if heap = [] then Inl IndexError
      else (let lastelt = last heap; heap' = butlast heap
            in if heap' \<noteq> []
               then (case siftup lt (heap'[0 := lastelt]) 0 of
                       Inl e \<Rightarrow> Inl e
                     | Inr heap'' \<Rightarrow> Inr (heap' ! 0, heap''))
               else Inr (lastelt, heap')))"

fun heapify_loop ::
  "('a \<Rightarrow> 'a \<Rightarrow> error + bool) \<Rightarrow> 'a list \<Rightarrow> nat list \<Rightarrow> error + 'a list" where
  "heapify_loop lt x [] = Inr x"
| "heapify_loop lt x (i # rest) =
     (case siftup lt x i of Inl e \<Rightarrow> Inl e | Inr x' \<Rightarrow> heapify_loop lt x' rest)"

definition heapify :: "('a \<Rightarrow> 'a \<Rightarrow> error + bool) \<Rightarrow> 'a list \<Rightarrow> error + 'a list" where
  "heapify lt x = heapify_loop lt x (rev [0..<length x div 2])"

declare siftdown_loop.simps [simp del]
declare siftup_loop.simps [simp del]

subsection \<open>The heap operations keep the elements\<close>

text \<open>
  A call that returns has permuted the list: \<^verbatim>\<open>heappush\<close> adds the item,
  \<^verbatim>\<open>heappop\<close> takes out the item it returns. In particular \<^verbatim>\<open>heappop\<close> shortens the
  list, which is why the completion sweep of the engine, defined below, terminates.
\<close>

lemma siftdown_loop_stop:
  "\<not> sp < pos \<Longrightarrow> siftdown_loop lt h sp pos x = Inr (h[pos := x])"
  by (subst siftdown_loop.simps) simp

lemma siftdown_loop_err:
  "sp < pos \<Longrightarrow> lt x (h ! ((pos - 1) div 2)) = Inl e \<Longrightarrow> siftdown_loop lt h sp pos x = Inl e"
  by (subst siftdown_loop.simps) (simp add: Let_def)

lemma siftdown_loop_place:
  "sp < pos \<Longrightarrow> lt x (h ! ((pos - 1) div 2)) = Inr False \<Longrightarrow>
     siftdown_loop lt h sp pos x = Inr (h[pos := x])"
  by (subst siftdown_loop.simps) (simp add: Let_def)

lemma siftdown_loop_move:
  "sp < pos \<Longrightarrow> lt x (h ! ((pos - 1) div 2)) = Inr True \<Longrightarrow>
     siftdown_loop lt h sp pos x
       = siftdown_loop lt (h[pos := h ! ((pos - 1) div 2)]) sp ((pos - 1) div 2) x"
  by (subst siftdown_loop.simps) (simp add: Let_def)

lemma siftup_loop_stop:
  "\<not> 2 * pos + 1 < length h \<Longrightarrow> siftup_loop lt h pos = Inr (h, pos)"
  by (subst siftup_loop.simps) (simp add: Let_def)

lemma siftup_loop_only_left:
  "2 * pos + 1 < length h \<Longrightarrow> \<not> 2 * pos + 2 < length h \<Longrightarrow>
     siftup_loop lt h pos = siftup_loop lt (h[pos := h ! (2 * pos + 1)]) (2 * pos + 1)"
  by (subst siftup_loop.simps) (simp add: Let_def)

lemma siftup_loop_err:
  "2 * pos + 2 < length h \<Longrightarrow> lt (h ! (2 * pos + 1)) (h ! (2 * pos + 2)) = Inl e \<Longrightarrow>
     siftup_loop lt h pos = Inl e"
  by (subst siftup_loop.simps) (simp add: Let_def)

lemma siftup_loop_left:
  "2 * pos + 2 < length h \<Longrightarrow> lt (h ! (2 * pos + 1)) (h ! (2 * pos + 2)) = Inr True \<Longrightarrow>
     siftup_loop lt h pos = siftup_loop lt (h[pos := h ! (2 * pos + 1)]) (2 * pos + 1)"
  by (subst siftup_loop.simps) (simp add: Let_def)

lemma siftup_loop_right:
  "2 * pos + 2 < length h \<Longrightarrow> lt (h ! (2 * pos + 1)) (h ! (2 * pos + 2)) = Inr False \<Longrightarrow>
     siftup_loop lt h pos = siftup_loop lt (h[pos := h ! (2 * pos + 2)]) (2 * pos + 2)"
  by (subst siftup_loop.simps) (simp add: Let_def)

lemma mset_hole_move:
  assumes "p < length h" "pos < length h" "p \<noteq> pos"
  shows "mset (h[pos := h ! p, p := x]) = mset (h[pos := x])"
proof -
  let ?ls = "h[pos := x]"
  have "mset (?ls[p := ?ls ! pos, pos := ?ls ! p]) = mset ?ls"
    using assms by (intro mset_swap) simp_all
  moreover have "?ls[p := ?ls ! pos, pos := ?ls ! p] = h[pos := h ! p, p := x]"
    using assms by (simp add: list_update_swap [of p pos])
  ultimately show ?thesis by simp
qed

lemma siftdown_loop_mset:
  "siftdown_loop lt h sp pos x = Inr h' \<Longrightarrow> pos < length h \<Longrightarrow>
     mset h' = mset (h[pos := x]) \<and> length h' = length h"
proof (induction pos arbitrary: h rule: less_induct)
  case (less pos)
  let ?p = "(pos - 1) div 2"
  show ?case
  proof (cases "sp < pos")
    case False
    then show ?thesis using less.prems siftdown_loop_stop [OF False, of lt h x] by auto
  next
    case True
    then have p: "?p < pos" by simp
    show ?thesis
    proof (cases "lt x (h ! ?p)")
      case (Inl e)
      then show ?thesis
        using less.prems True siftdown_loop_err [where lt = lt and x = x and h = h and pos = pos
            and sp = sp and e = e] by simp
    next
      case (Inr b)
      show ?thesis
      proof (cases b)
        case False
        then show ?thesis using less.prems siftdown_loop_place [where lt = lt and x = x and h = h and pos = pos and sp = sp]
            True Inr by auto
      next
        case b: True
        have rec: "siftdown_loop lt (h[pos := h ! ?p]) sp ?p x = Inr h'"
          using less.prems(1) True Inr b
            siftdown_loop_move [where lt = lt and x = x and h = h and pos = pos and sp = sp]
          by simp
        have "?p < length (h[pos := h ! ?p])" using p less.prems(2) by simp
        from less.IH [OF p rec this]
        have "mset h' = mset (h[pos := h ! ?p, ?p := x])" "length h' = length h" by simp_all
        moreover have "mset (h[pos := h ! ?p, ?p := x]) = mset (h[pos := x])"
          using p less.prems(2) by (intro mset_hole_move) simp_all
        ultimately show ?thesis by simp
      qed
    qed
  qed
qed

lemma siftup_loop_cases:
  assumes "siftup_loop lt h pos = Inr (h', pos')"
  obtains (stop) "\<not> 2 * pos + 1 < length h" "h' = h" "pos' = pos"
  | (move) c where "c = 2 * pos + 1 \<or> c = 2 * pos + 2" "c < length h"
      "siftup_loop lt (h[pos := h ! c]) c = Inr (h', pos')"
      "2 * pos + 2 < length h \<longrightarrow>
         lt (h ! (2 * pos + 1)) (h ! (2 * pos + 2)) = Inr (c = 2 * pos + 1)"
proof (cases "2 * pos + 1 < length h")
  case False
  from siftup_loop_stop [OF False, of lt] assms have "h' = h" "pos' = pos" by simp_all
  with False show ?thesis by (rule stop)
next
  case c1: True
  show ?thesis
  proof (cases "2 * pos + 2 < length h")
    case False
    from siftup_loop_only_left [OF c1 False, of lt] assms
    have "siftup_loop lt (h[pos := h ! (2 * pos + 1)]) (2 * pos + 1) = Inr (h', pos')" by simp
    with c1 False show ?thesis by (intro move [of "2 * pos + 1"]) simp_all
  next
    case c2: True
    show ?thesis
    proof (cases "lt (h ! (2 * pos + 1)) (h ! (2 * pos + 2))")
      case (Inl e)
      from siftup_loop_err [where lt = lt and h = h and pos = pos and e = e] c2 Inl assms
      show ?thesis by simp
    next
      case (Inr b)
      show ?thesis
      proof (cases b)
        case True
        from siftup_loop_left [where lt = lt and h = h and pos = pos] c2 Inr True assms
        have "siftup_loop lt (h[pos := h ! (2 * pos + 1)]) (2 * pos + 1) = Inr (h', pos')"
          by simp
        with c1 Inr True show ?thesis by (intro move [of "2 * pos + 1"]) simp_all
      next
        case False
        from siftup_loop_right [where lt = lt and h = h and pos = pos] c2 Inr False assms
        have "siftup_loop lt (h[pos := h ! (2 * pos + 2)]) (2 * pos + 2) = Inr (h', pos')"
          by simp
        with c2 Inr False show ?thesis by (intro move [of "2 * pos + 2"]) simp_all
      qed
    qed
  qed
qed

lemma siftup_loop_mset:
  "siftup_loop lt h pos = Inr (h', pos') \<Longrightarrow> pos < length h \<Longrightarrow>
     mset (h'[pos' := x]) = mset (h[pos := x]) \<and> length h' = length h \<and> pos' < length h
     \<and> pos \<le> pos'"
proof (induction "length h - pos" arbitrary: h pos rule: less_induct)
  case less
  from less.prems(1) show ?case
  proof (cases rule: siftup_loop_cases)
    case stop
    then show ?thesis using less.prems(2) by simp
  next
    case (move c)
    have c: "pos < c" "c \<noteq> pos" using move(1) by auto
    have m: "length (h[pos := h ! c]) - c < length h - pos"
      using c move(2) by simp
    have "c < length (h[pos := h ! c])" using move(2) by simp
    from less.hyps [OF m move(3) this]
    have "mset (h'[pos' := x]) = mset (h[pos := h ! c, c := x])" "length h' = length h"
      "pos' < length h" "c \<le> pos'" by simp_all
    moreover have "mset (h[pos := h ! c, c := x]) = mset (h[pos := x])"
      using c move(2) less.prems(2) by (intro mset_hole_move) simp_all
    ultimately show ?thesis using c by simp
  qed
qed

lemma siftup_mset:
  assumes "siftup lt h pos = Inr h'" "pos < length h"
  shows "mset h' = mset h \<and> length h' = length h"
proof -
  obtain h1 p1 where l: "siftup_loop lt h pos = Inr (h1, p1)"
    using assms(1) by (cases "siftup_loop lt h pos") (auto simp: siftup_def Let_def)
  from siftup_loop_mset [OF l assms(2), of "h ! pos"]
  have m: "mset (h1[p1 := h ! pos]) = mset h" "length h1 = length h" "p1 < length h"
    by simp_all
  have "siftdown_loop lt (h1[p1 := h ! pos]) pos p1 (h ! pos) = Inr h'"
    using assms(1) l m by (simp add: siftup_def siftdown_def Let_def)
  from siftdown_loop_mset [OF this] m show ?thesis by simp
qed


lemma heappop_mset:
  assumes "heappop lt h = Inr (x, h')"
  shows "mset h = add_mset x (mset h') \<and> h \<noteq> [] \<and> x = h ! 0"
proof -
  have ne: "h \<noteq> []" using assms by (auto simp: heappop_def)
  then obtain ys l where h: "h = ys @ [l]" by (cases h rule: rev_cases) auto
  show ?thesis
  proof (cases ys)
    case Nil
    then show ?thesis using assms h by (simp add: heappop_def)
  next
    case (Cons a bs)
    have su: "siftup lt (l # bs) 0 = Inr h'" and x: "x = a"
      using assms h Cons by (cases "siftup lt (l # bs) 0"; simp add: heappop_def Let_def)+
    have "0 < length (l # bs)" by simp
    from siftup_mset [OF su this] have "mset h' = add_mset l (mset bs)" by simp
    then show ?thesis using h Cons x by simp
  qed
qed



lemma heappop_length:
  assumes "heappop lt h = Inr (x, h')"
  shows "length h' < length h"
proof -
  from heappop_mset [OF assms] have "size (mset h) = size (add_mset x (mset h'))" by simp
  then show ?thesis by simp
qed

section \<open>Events and the event queue\<close>

text \<open>
  \<^verbatim>\<open>simulation/event.py\<close>. The queue holds tuples \<^verbatim>\<open>(time, seq, event)\<close>.
  \<^verbatim>\<open>make_event\<close> takes \<open>seq\<close> from the module-level \<^verbatim>\<open>itertools.count()\<close>; the counter is
  passed in and returned advanced. The payload of an event is a job or \<^verbatim>\<open>None\<close>.
\<close>

datatype EventType = ARRIVAL | COMPLETION | PREEMPTION | SCHEDULING

record Event =
  time :: real
  type :: EventType
  payload :: "Job option"

type_synonym event_entry = "real \<times> nat \<times> Event"






definition peek :: "event_entry list \<Rightarrow> Event option" where
  "peek queue = (if queue \<noteq> [] then Some (snd (snd (queue ! 0))) else None)"

definition is_empty :: "event_entry list \<Rightarrow> bool" where
  "is_empty queue = (queue = [])"









section \<open>The simulation engine\<close>

text \<open>\<^verbatim>\<open>Tenant\<close> from \<^verbatim>\<open>models/tenant.py\<close>.\<close>

record Tenant =
  tid :: string
  submitted_jobs :: "Job list"
  completed_jobs :: "Job list"
  preempted_jobs :: "Job list"

text \<open>
  Python's \<^verbatim>\<open><\<close> on two running tuples \<^verbatim>\<open>(finish_time, job, node)\<close>: decided by the finish
  times when they differ; otherwise the jobs, or the nodes, would have to be ordered, which
  raises \<^verbatim>\<open>TypeError\<close>.
\<close>

definition running_lt :: "running_entry \<Rightarrow> running_entry \<Rightarrow> error + bool" where
  "running_lt a b =
     (case (a, b) of ((ft1, j1, n1), (ft2, j2, n2)) \<Rightarrow>
        if ft1 \<noteq> ft2 then Inr (ft1 < ft2)
        else if j1 \<noteq> j2 then Inl TypeError
        else if n1 \<noteq> n2 then Inl TypeError
        else Inr False)"

text \<open>
  \<^verbatim>\<open>FIFOScheduler._allocate_job\<close>; \<open>now\<close> is what its call of \<^verbatim>\<open>time.time()\<close> returns. On
  the first start \<^verbatim>\<open>wait_time = now - arrival_time\<close>; on a resume with a truthy
  \<^verbatim>\<open>preemption_time\<close>, \<^verbatim>\<open>wait_time += now - preemption_time\<close> and the preemption time is
  cleared. \<^verbatim>\<open>list.remove\<close> raises \<^verbatim>\<open>ValueError\<close> when the job is not in the ready queue.
  The result is the cluster, the job, the ready queue and the running list after the call.
\<close>

definition fifo_allocate_job ::
  "real \<Rightarrow> Node list \<Rightarrow> nat \<Rightarrow> Job \<Rightarrow> Job list \<Rightarrow> running_entry list
     \<Rightarrow> error + (Node list \<times> Job \<times> Job list \<times> running_entry list)" where
  "fifo_allocate_job now cluster node job global_ready_queue running =
     (case allocate (cluster ! node) job of
        (Some e, _) \<Rightarrow> Inl e
      | (None, node') \<Rightarrow>
          (case (case start_time job of
                   None \<Rightarrow>
                     Inr (job\<lparr>start_time := Some now,
                              wait_time := Some (now - arrival_time job)\<rparr>)
                 | Some _ \<Rightarrow>
                     (case preemption_time job of
                        None \<Rightarrow> Inr job
                      | Some pt \<Rightarrow>
                          if pt = 0 then Inr job
                          else (case wait_time job of
                                  None \<Rightarrow> Inl TypeError
                                | Some w \<Rightarrow>
                                    Inr (job\<lparr>wait_time := Some (w + (now - pt)),
                                             preemption_time := None\<rparr>)))) of
             Inl e \<Rightarrow> Inl e
           | Inr job1 \<Rightarrow>
               (let job2 = job1\<lparr>last_start_time := Some now, state := ''running''\<rparr>
                in if job \<notin> set global_ready_queue then Inl ValueError
                   else (case remaining_time job2 of
                           None \<Rightarrow> Inl TypeError
                         | Some r \<Rightarrow>
                             (case heappush running_lt running (now + r, job2, node) of
                                Inl e \<Rightarrow> Inl e
                              | Inr running' \<Rightarrow>
                                  Inr (cluster[node := node'], job2,
                                       remove1 job global_ready_queue, running'))))))"

text \<open>
  \<^verbatim>\<open>FIFOScheduler.preempt_and_allocate\<close>; \<open>now\<close> is its own reading of the clock and
  \<open>now_alloc\<close> the later one made by \<^verbatim>\<open>_allocate_job\<close>. The victim's remaining time
  becomes \<^verbatim>\<open>max(0, remaining_time - elapsed)\<close>, its state \<^verbatim>\<open>"preempted"\<close>, and it is
  appended to the ready queue.
\<close>

definition fifo_preempt_and_allocate ::
  "real \<Rightarrow> real \<Rightarrow> running_entry \<Rightarrow> Job \<Rightarrow> Node list \<Rightarrow> Job list \<Rightarrow> running_entry list
     \<Rightarrow> error + (Node list \<times> Job \<times> Job \<times> Job list \<times> running_entry list)" where
  "fifo_preempt_and_allocate now now_alloc victim_tuple new_job cluster global_ready_queue
      running =
     (case victim_tuple of (finish_time, victim_job, node) \<Rightarrow>
        if victim_tuple \<notin> set running then Inl ValueError
        else (case heapify running_lt (remove1 victim_tuple running) of
                Inl e \<Rightarrow> Inl e
              | Inr running1 \<Rightarrow>
                  (let cluster1 = cluster[node := release (cluster ! node) victim_job]
                   in case (last_start_time victim_job, remaining_time victim_job) of
                        (Some started, Some r) \<Rightarrow>
                          (let elapsed = now - started;
                               victim' = victim_job\<lparr>remaining_time := Some (max 0 (r - elapsed)),
                                                    state := ''preempted'',
                                                    preemption_time := Some now\<rparr>
                           in case fifo_allocate_job now_alloc cluster1 node new_job
                                     (global_ready_queue @ [victim']) running1 of
                                Inl e \<Rightarrow> Inl e
                              | Inr (cluster2, new_job', queue2, running2) \<Rightarrow>
                                  Inr (cluster2, victim', new_job', queue2, running2))
                      | _ \<Rightarrow> Inl TypeError)))"



text \<open>
  \<^verbatim>\<open>SimulationEngine._handle_completion\<close>. The node's running set holds job ids, so the
  test \<^verbatim>\<open>job in node.running_jobs\<close> on the job object is false and the set is changed by
  \<^verbatim>\<open>node.release\<close> only. \<^verbatim>\<open>next(...)\<close> raises \<^verbatim>\<open>StopIteration\<close> when no tenant has the
  job's tenant id; the log line formats \<^verbatim>\<open>job.wait_time\<close>, which raises \<^verbatim>\<open>TypeError\<close> on
  \<^verbatim>\<open>None\<close>.
\<close>

fun append_completed :: "Tenant list \<Rightarrow> Job \<Rightarrow> Tenant list option" where
  "append_completed [] job = None"
| "append_completed (t # ts) job =
     (if tid t = tenant_id job
      then Some (t\<lparr>completed_jobs := completed_jobs t @ [job]\<rparr> # ts)
      else map_option (\<lambda>ts'. t # ts') (append_completed ts job))"

definition handle_completion ::
  "Node list \<Rightarrow> Tenant list \<Rightarrow> Job \<Rightarrow> nat \<Rightarrow> real
     \<Rightarrow> error + (Node list \<times> Tenant list \<times> Job)" where
  "handle_completion cluster tenants job node finish_time =
     (let cluster' = cluster[node := release (cluster ! node) job];
          job' = job\<lparr>state := ''completed'', end_time := Some finish_time,
                     remaining_time := Some 0\<rparr>
      in case append_completed tenants job' of
           None \<Rightarrow> Inl StopIteration
         | Some tenants' \<Rightarrow>
             (case wait_time job' of
                None \<Rightarrow> Inl TypeError
              | Some _ \<Rightarrow> Inr (cluster', tenants', job')))"

text \<open>
  Step 3 of the main loop of \<^verbatim>\<open>SimulationEngine.run\<close>: for every running tuple whose job
  is running and has a truthy \<^verbatim>\<open>last_start_time\<close>,
  \<^verbatim>\<open>remaining_time = max(0.0, duration - (now - last_start_time))\<close>.
\<close>

definition advance_running :: "real \<Rightarrow> running_entry list \<Rightarrow> running_entry list" where
  "advance_running now running =
     map (\<lambda>(finish_time, job, node).
            (finish_time,
             (case last_start_time job of
                Some started \<Rightarrow>
                  if state job = ''running'' \<and> started \<noteq> 0
                  then job\<lparr>remaining_time := Some (max 0 (duration job - (now - started)))\<rparr>
                  else job
              | None \<Rightarrow> job),
             node))
         running"

text \<open>
  Step 4, \<^verbatim>\<open>SimulationEngine._handle_running_jobs\<close>: the \<^verbatim>\<open>while self.running_jobs\<close> loop
  pops every tuple, subtracts the time elapsed since \<^verbatim>\<open>last_start_time\<close> from
  \<^verbatim>\<open>remaining_time\<close>, completes the job when the result is \<open>\<le> 0\<close> and otherwise pushes it
  on the new heap with finish time \<^verbatim>\<open>now + remaining_time\<close>.
\<close>

function handle_running_loop ::
  "real \<Rightarrow> Node list \<Rightarrow> Tenant list \<Rightarrow> running_entry list \<Rightarrow> running_entry list
     \<Rightarrow> error + (Node list \<times> Tenant list \<times> running_entry list)" where
  "handle_running_loop now cluster tenants running updated_heap =
     (if running = [] then Inr (cluster, tenants, updated_heap)
      else (case heappop running_lt running of
              Inl e \<Rightarrow> Inl e
            | Inr ((finish_time, job, node), running') \<Rightarrow>
                (case (case last_start_time job of
                         Some started \<Rightarrow>
                           if state job = ''running'' \<and> started \<noteq> 0
                           then (case remaining_time job of
                                   None \<Rightarrow> Inl TypeError
                                 | Some r \<Rightarrow>
                                     Inr (job\<lparr>remaining_time :=
                                                Some (max 0 (r - (now - started)))\<rparr>))
                           else Inr job
                       | None \<Rightarrow> Inr job) of
                   Inl e \<Rightarrow> Inl e
                 | Inr job1 \<Rightarrow>
                     (case remaining_time job1 of
                        None \<Rightarrow> Inl TypeError
                      | Some r \<Rightarrow>
                          if r \<le> 0
                          then (case handle_completion cluster tenants job1 node now of
                                  Inl e \<Rightarrow> Inl e
                                | Inr (cluster', tenants', job') \<Rightarrow>
                                    handle_running_loop now cluster' tenants' running'
                                      updated_heap)
                          else (case heappush running_lt updated_heap (now + r, job1, node) of
                                  Inl e \<Rightarrow> Inl e
                                | Inr updated_heap' \<Rightarrow>
                                    handle_running_loop now cluster tenants running'
                                      updated_heap')))))"
  by pat_completeness auto
termination
  by (relation "measure (\<lambda>(now, cluster, tenants, running, updated_heap). length running)")
     (auto dest: heappop_length)

definition handle_running_jobs ::
  "real \<Rightarrow> Node list \<Rightarrow> Tenant list \<Rightarrow> running_entry list
     \<Rightarrow> error + (Node list \<times> Tenant list \<times> running_entry list)" where
  "handle_running_jobs now cluster tenants running =
     (case handle_running_loop now cluster tenants running [] of
        Inl e \<Rightarrow> Inl e
      | Inr (cluster', tenants', updated_heap) \<Rightarrow>
          (case heapify running_lt updated_heap of
             Inl e \<Rightarrow> Inl e
           | Inr running' \<Rightarrow> Inr (cluster', tenants', running')))"

text \<open>
  \<^verbatim>\<open>Tenant.avg_wait_time\<close>: the sum of \<^verbatim>\<open>start_time - arrival_time\<close> over the completed
  jobs with a truthy \<^verbatim>\<open>start_time\<close>, divided by the number of completed jobs. A dictionary
  built by a comprehension is the list of its items in insertion order; a key set again
  keeps its place and takes the new value.
\<close>

definition avg_wait_time :: "Tenant \<Rightarrow> real" where
  "avg_wait_time t =
     (if completed_jobs t = [] then 0
      else (let total_wait =
                  sum_list (List.map_filter
                     (\<lambda>job. case start_time job of
                               Some s \<Rightarrow> if s \<noteq> 0 then Some (s - arrival_time job) else None
                             | None \<Rightarrow> None)
                     (completed_jobs t))
            in total_wait / real (length (completed_jobs t))))"

fun dict_set :: "('k \<times> 'v) list \<Rightarrow> 'k \<Rightarrow> 'v \<Rightarrow> ('k \<times> 'v) list" where
  "dict_set [] k v = [(k, v)]"
| "dict_set ((k', v') # d) k v = (if k' = k then (k, v) # d else (k', v') # dict_set d k v)"

definition dict_of :: "('k \<times> 'v) list \<Rightarrow> ('k \<times> 'v) list" where
  "dict_of kvs = foldl (\<lambda>d (k, v). dict_set d k v) [] kvs"

text \<open>The entry \<^verbatim>\<open>avg_wait\<close> of the results record, from \<^verbatim>\<open>_collect_results\<close>.\<close>

definition avg_wait :: "Tenant list \<Rightarrow> (string \<times> real) list" where
  "avg_wait tenants = dict_of (map (\<lambda>t. (tid t, avg_wait_time t)) tenants)"

section \<open>Predicates used in the statements and proofs\<close>









text \<open>The mean of \<^verbatim>\<open>wait_time\<close> over a tenant's completed jobs.\<close>

definition mean_wait_time :: "Tenant \<Rightarrow> real" where
  "mean_wait_time t =
     sum_list (map (\<lambda>job. case wait_time job of Some w \<Rightarrow> w | None \<Rightarrow> 0) (completed_jobs t))
       / real (length (completed_jobs t))"

section \<open>Concrete objects used by the witnesses\<close>

definition job_a :: Job where
  "job_a = \<lparr>job_id = ''a'', tenant_id = ''tenant-1'', cpu = 2, ram = 1024, gpus = 0,
            priority = ''low'', arrival_time = 10, start_time = None, end_time = None,
            preemption_time = None, last_start_time = None, remaining_time = Some 10,
            duration = 10, wait_time = Some 0, state = ''queued''\<rparr>"

definition node_free :: Node where
  "node_free = \<lparr>node_id = ''node-1'', total_cpu = 2, total_ram = 2048, total_gpus = 0,
                used_cpu = 0, used_ram = 0, used_gpus = 0, running_jobs = []\<rparr>"

definition node_full :: Node where
  "node_full = \<lparr>node_id = ''node-1'', total_cpu = 2, total_ram = 2048, total_gpus = 0,
                used_cpu = 2, used_ram = 1024, used_gpus = 0, running_jobs = [''b'']\<rparr>"

definition job_b :: Job where
  "job_b = \<lparr>job_id = ''b'', tenant_id = ''tenant-1'', cpu = 2, ram = 1024, gpus = 0,
            priority = ''low'', arrival_time = 90, start_time = Some 100, end_time = None,
            preemption_time = None, last_start_time = Some 100, remaining_time = Some 10,
            duration = 10, wait_time = Some 10, state = ''running''\<rparr>"

definition job_h :: Job where
  "job_h = \<lparr>job_id = ''h'', tenant_id = ''tenant-2'', cpu = 2, ram = 1024, gpus = 0,
            priority = ''high'', arrival_time = 101, start_time = None, end_time = None,
            preemption_time = None, last_start_time = None, remaining_time = Some 2,
            duration = 2, wait_time = Some 0, state = ''queued''\<rparr>"

definition cfg_fixed :: SimulationConfig where
  "cfg_fixed = \<lparr>runtime_seconds = 2, num_tenants = 1, cluster_nodes = 1, per_node_cpu = 2,
                per_node_ram = 2048, per_node_gpus = 0, arrival_model = ''fixed'',
                arrival_rate = 2, duration_range = (1, 1), cpu_request_range = (1, 1),
                ram_request_range = (1024, 1024), gpu_request_range = (0, 0),
                priority_distribution = [(''low'', 1), (''med'', 0), (''high'', 0)],
                scheduler_choice = ''fifo'', preemption_enabled = True\<rparr>"


definition tenant_1 :: Tenant where
  "tenant_1 = \<lparr>tid = ''tenant-1'', submitted_jobs = [], completed_jobs = [],
                preempted_jobs = []\<rparr>"

definition tenant_2 :: Tenant where
  "tenant_2 = \<lparr>tid = ''tenant-2'', submitted_jobs = [], completed_jobs = [],
                preempted_jobs = []\<rparr>"

definition job_u :: Job where
  "job_u = \<lparr>job_id = ''u'', tenant_id = ''tenant-2'', cpu = 2, ram = 1024, gpus = 0,
            priority = ''high'', arrival_time = 20, start_time = None, end_time = None,
            preemption_time = None, last_start_time = None, remaining_time = Some 2,
            duration = 2, wait_time = Some 0, state = ''queued''\<rparr>"

definition node_a :: Node where
  "node_a = \<lparr>node_id = ''node-1'', total_cpu = 2, total_ram = 2048, total_gpus = 0,
             used_cpu = 2, used_ram = 1024, used_gpus = 0, running_jobs = [''a'']\<rparr>"

definition node_u :: Node where
  "node_u = \<lparr>node_id = ''node-1'', total_cpu = 2, total_ram = 2048, total_gpus = 0,
             used_cpu = 2, used_ram = 1024, used_gpus = 0, running_jobs = [''u'']\<rparr>"


definition job_a_first :: Job where
  "job_a_first = job_a\<lparr>start_time := Some 12, wait_time := Some 2,
                        last_start_time := Some 12, state := ''running''\<rparr>"

definition job_a_preempted :: Job where
  "job_a_preempted = job_a_first\<lparr>remaining_time := Some 2, state := ''preempted'',
                                  preemption_time := Some 20\<rparr>"

definition job_a_resumed :: Job where
  "job_a_resumed = job_a_preempted\<lparr>wait_time := Some 5, preemption_time := None,
                                    last_start_time := Some 23, state := ''running''\<rparr>"

definition job_a_done :: Job where
  "job_a_done = job_a_resumed\<lparr>state := ''completed'', end_time := Some 26,
                               remaining_time := Some 0\<rparr>"

definition job_u_run :: Job where
  "job_u_run = job_u\<lparr>start_time := Some 20, wait_time := Some 0,
                      last_start_time := Some 20, state := ''running''\<rparr>"

definition job_u_done :: Job where
  "job_u_done = job_u_run\<lparr>remaining_time := Some 0, state := ''completed'',
                           end_time := Some 23\<rparr>"





section \<open>Node allocation\<close>

lemma remove1_append_new: "x \<notin> set xs \<Longrightarrow> remove1 x (xs @ [x]) = xs"
  by (induction xs) auto

text \<open>
  C5. \<^verbatim>\<open>Node.allocate(job)\<close> raises exactly when \<^verbatim>\<open>can_allocate(job)\<close> is false, that
  is when some resource dimension has \<open>total - used < request\<close>. When it raises, the node
  is unchanged. When it succeeds, each usage counter has grown by exactly the job's request
  and the job's id has been appended to the running set.
\<close>

theorem allocate_spec:
  "(fst (allocate n j) \<noteq> None) = (\<not> can_allocate n j)
   \<and> (\<not> can_allocate n j) =
       (total_cpu n - used_cpu n < cpu j \<or> total_ram n - used_ram n < ram j
        \<or> total_gpus n - used_gpus n < gpus j)
   \<and> (if can_allocate n j
      then fst (allocate n j) = None
           \<and> used_cpu (snd (allocate n j)) = used_cpu n + cpu j
           \<and> used_ram (snd (allocate n j)) = used_ram n + ram j
           \<and> used_gpus (snd (allocate n j)) = used_gpus n + gpus j
           \<and> running_jobs (snd (allocate n j)) = running_jobs n @ [job_id j]
           \<and> total_cpu (snd (allocate n j)) = total_cpu n
           \<and> total_ram (snd (allocate n j)) = total_ram n
           \<and> total_gpus (snd (allocate n j)) = total_gpus n
           \<and> node_id (snd (allocate n j)) = node_id n
      else fst (allocate n j) = Some ValueError \<and> snd (allocate n j) = n)"
  by (auto simp: allocate_def can_allocate_def)

text \<open>
  C10. If the job's id is not yet in the node's running set and \<^verbatim>\<open>can_allocate\<close> holds,
  then \<^verbatim>\<open>allocate\<close> succeeds and a following \<^verbatim>\<open>release\<close> gives back the node as it was:
  the three usage counters and the running list (and every other field) are restored.
\<close>

theorem allocate_release_roundtrip:
  assumes "job_id j \<notin> set (running_jobs n)" and "can_allocate n j"
  shows "fst (allocate n j) = None \<and> release (snd (allocate n j)) j = n"
  using assms by (simp add: allocate_def release_def remove1_append_new)

theorem allocate_release_roundtrip_witness:
  "job_id job_a \<notin> set (running_jobs node_free) \<and> can_allocate node_free job_a
   \<and> fst (allocate node_free job_a) = None
   \<and> release (snd (allocate node_free job_a)) job_a = node_free"
proof -
  have h1: "job_id job_a \<notin> set (running_jobs node_free)"
    by (simp add: job_a_def node_free_def)
  have h2: "can_allocate node_free job_a"
    by (simp add: can_allocate_def job_a_def node_free_def)
  from allocate_release_roundtrip [OF h1 h2] h1 h2 show ?thesis by simp
qed

section \<open>Victim search\<close>

lemma fifo_step:
  "fifo_find_victim inc (e # rest) cl =
     (if fifo_preemptable inc cl e then Some e else fifo_find_victim inc rest cl)"
  by (cases e) (simp add: fifo_preemptable_def)

lemma fifo_find_victim_None:
  "(fifo_find_victim inc rs cl = None) = (\<forall>e \<in> set rs. \<not> fifo_preemptable inc cl e)"
  by (induction rs) (simp_all add: fifo_step del: fifo_find_victim.simps(2))

lemma fifo_find_victim_Some:
  "fifo_find_victim inc rs cl = Some e \<Longrightarrow>
     fifo_preemptable inc cl e
     \<and> (\<exists>pre post. rs = pre @ e # post \<and> (\<forall>x \<in> set pre. \<not> fifo_preemptable inc cl x))"
proof (induction rs)
  case Nil
  then show ?case by simp
next
  case (Cons a rs)
  show ?case
  proof (cases "fifo_preemptable inc cl a")
    case True
    then have "a = e"
      using Cons.prems by (simp add: fifo_step del: fifo_find_victim.simps(2))
    then have "a # rs = [] @ e # rs" by simp
    then show ?thesis using True \<open>a = e\<close> by fastforce
  next
    case False
    then have "fifo_find_victim inc rs cl = Some e"
      using Cons.prems by (simp add: fifo_step del: fifo_find_victim.simps(2))
    then obtain pre post where ok: "fifo_preemptable inc cl e" and pp: "rs = pre @ e # post"
       and no: "\<forall>x \<in> set pre. \<not> fifo_preemptable inc cl x"
      using Cons.IH by blast
    have "a # rs = (a # pre) @ e # post" using pp by simp
    moreover have "\<forall>x \<in> set (a # pre). \<not> fifo_preemptable inc cl x" using no False by simp
    ultimately show ?thesis using ok by blast
  qed
qed

lemma swap_can_allocate:
  assumes "job_id v \<in> set (running_jobs nd)"
  shows "can_allocate (release nd v) inc =
           (used_cpu nd - cpu v + cpu inc \<le> total_cpu nd
            \<and> used_ram nd - ram v + ram inc \<le> total_ram nd
            \<and> used_gpus nd - gpus v + gpus inc \<le> total_gpus nd)"
  using assms by (auto simp: can_allocate_def release_def)

text \<open>
  C3. What \<^verbatim>\<open>FIFOScheduler.find_victim\<close> returns. If it returns a tuple, the victim's
  priority is strictly lower than the incoming job's (so a job of equal or higher priority
  is never chosen), the victim's node has room for the incoming job in cpu, ram and gpus
  once the victim's request is taken out, and the tuple is the first one of the running
  list, in list order, that passes the test. If the victim is on its node's running set,
  releasing it makes \<^verbatim>\<open>can_allocate\<close> hold for the incoming job. It returns \<^verbatim>\<open>None\<close> exactly
  when no tuple of the running list passes the test.
\<close>

theorem fifo_find_victim_spec:
  "(case fifo_find_victim incoming running cluster of
      None \<Rightarrow> \<forall>e \<in> set running. \<not> fifo_preemptable incoming cluster e
    | Some (ft, victim, n) \<Rightarrow>
        priority_value (priority victim) < priority_value (priority incoming)
        \<and> used_cpu (cluster ! n) - cpu victim + cpu incoming \<le> total_cpu (cluster ! n)
        \<and> used_ram (cluster ! n) - ram victim + ram incoming \<le> total_ram (cluster ! n)
        \<and> used_gpus (cluster ! n) - gpus victim + gpus incoming \<le> total_gpus (cluster ! n)
        \<and> (job_id victim \<in> set (running_jobs (cluster ! n))
             \<longrightarrow> can_allocate (release (cluster ! n) victim) incoming)
        \<and> (\<exists>pre post. running = pre @ (ft, victim, n) # post
             \<and> (\<forall>e \<in> set pre. \<not> fifo_preemptable incoming cluster e)))
   \<and> ((\<forall>e \<in> set running. \<not> fifo_preemptable incoming cluster e)
        \<longrightarrow> fifo_find_victim incoming running cluster = None)"
proof (cases "fifo_find_victim incoming running cluster")
  case None
  then show ?thesis using fifo_find_victim_None [of incoming running cluster] by simp
next
  case (Some e)
  obtain ft victim n where e: "e = (ft, victim, n)" by (cases e) auto
  from fifo_find_victim_Some [OF Some]
  have ok: "fifo_preemptable incoming cluster e"
    and first: "\<exists>pre post. running = pre @ e # post
                  \<and> (\<forall>x \<in> set pre. \<not> fifo_preemptable incoming cluster x)"
    by blast+
  have fits: "priority_value (priority victim) < priority_value (priority incoming)"
    "used_cpu (cluster ! n) - cpu victim + cpu incoming \<le> total_cpu (cluster ! n)"
    "used_ram (cluster ! n) - ram victim + ram incoming \<le> total_ram (cluster ! n)"
    "used_gpus (cluster ! n) - gpus victim + gpus incoming \<le> total_gpus (cluster ! n)"
    using ok e by (simp_all add: fifo_preemptable_def)
  have swap: "job_id victim \<in> set (running_jobs (cluster ! n))
               \<longrightarrow> can_allocate (release (cluster ! n) victim) incoming"
    using fits swap_can_allocate [of victim "cluster ! n" incoming] by blast
  have notnone: "\<not> (\<forall>e \<in> set running. \<not> fifo_preemptable incoming cluster e)"
    using fifo_find_victim_None [of incoming running cluster] Some by simp
  show ?thesis using Some e fits swap first notnone by simp
qed

theorem fifo_find_victim_spec_witness:
  "fifo_find_victim job_h [(110, job_b, 0)] [node_full] = Some (110, job_b, 0)
   \<and> priority_value (priority job_b) < priority_value (priority job_h)
   \<and> job_id job_b \<in> set (running_jobs ([node_full] ! 0))
   \<and> can_allocate (release ([node_full] ! 0) job_b) job_h
   \<and> fifo_find_victim job_b [(110, job_b, 0)] [node_full] = None"
proof -
  have r1: "fifo_find_victim job_h [(110, job_b, 0)] [node_full] = Some (110, job_b, 0)"
    by (simp add: job_h_def job_b_def node_full_def priority_value_def)
  have r2: "fifo_find_victim job_b [(110, job_b, 0)] [node_full] = None"
    by (simp add: job_b_def node_full_def priority_value_def)
  have m: "job_id job_b \<in> set (running_jobs ([node_full] ! 0))"
    by (simp add: job_b_def node_full_def)
  show ?thesis
    using fifo_find_victim_spec [where incoming = job_h and running = "[(110, job_b, 0)]"
        and cluster = "[node_full]"] r1 r2 m
    by simp
qed

lemma stf_step:
  "stf_find_victim inc (e # rest) cl =
     (if remaining_time inc = None \<or> remaining_time (fst (snd e)) = None then Inl TypeError
      else if stf_preemptable inc cl e then Inr (Some e)
      else stf_find_victim inc rest cl)"
  by (cases e) (auto simp: stf_preemptable_def split: option.splits)

lemma stf_find_victim_Some:
  "stf_find_victim inc rs cl = Inr (Some e) \<Longrightarrow> e \<in> set rs \<and> stf_preemptable inc cl e"
proof (induction rs)
  case Nil
  then show ?case by simp
next
  case (Cons a rs)
  then show ?case
    by (cases "stf_preemptable inc cl a")
       (auto simp: stf_step simp del: stf_find_victim.simps(2) split: if_splits)
qed

text \<open>
  C4. \<^verbatim>\<open>ShortestTimeFirstScheduler.find_victim\<close> returns a running tuple as victim only if
  the incoming job's remaining time is strictly smaller than the victim's, or the two are
  equal and the incoming job's priority is strictly higher; and only if the victim's node
  has room for the incoming job in cpu, ram and gpus once the victim's request is taken
  out. So the victim's remaining time is never strictly smaller than the incoming job's.
\<close>

theorem stf_find_victim_spec:
  assumes "stf_find_victim incoming running cluster = Inr (Some (ft, victim, n))"
  shows "(ft, victim, n) \<in> set running
     \<and> (\<exists>ri rv. remaining_time incoming = Some ri \<and> remaining_time victim = Some rv
           \<and> (ri < rv \<or> (ri = rv
                 \<and> priority_value (priority incoming) > priority_value (priority victim)))
           \<and> \<not> rv < ri)
     \<and> used_cpu (cluster ! n) - cpu victim + cpu incoming \<le> total_cpu (cluster ! n)
     \<and> used_ram (cluster ! n) - ram victim + ram incoming \<le> total_ram (cluster ! n)
     \<and> used_gpus (cluster ! n) - gpus victim + gpus incoming \<le> total_gpus (cluster ! n)"
proof -
  from stf_find_victim_Some [OF assms]
  have mem: "(ft, victim, n) \<in> set running"
    and ok: "stf_preemptable incoming cluster (ft, victim, n)" by blast+
  from ok obtain ri rv where r: "remaining_time incoming = Some ri"
      "remaining_time victim = Some rv"
    by (auto simp: stf_preemptable_def split: option.splits)
  with ok have c: "ri < rv \<or> (ri = rv
        \<and> priority_value (priority incoming) > priority_value (priority victim))"
    and fits: "used_cpu (cluster ! n) - cpu victim + cpu incoming \<le> total_cpu (cluster ! n)"
      "used_ram (cluster ! n) - ram victim + ram incoming \<le> total_ram (cluster ! n)"
      "used_gpus (cluster ! n) - gpus victim + gpus incoming \<le> total_gpus (cluster ! n)"
    by (simp_all add: stf_preemptable_def)
  from c have "\<not> rv < ri" by auto
  with mem r c fits show ?thesis by simp
qed

theorem stf_find_victim_spec_witness:
  "stf_find_victim job_h [(110, job_b, 0)] [node_full] = Inr (Some (110, job_b, 0))
   \<and> remaining_time job_h = Some 2 \<and> remaining_time job_b = Some 10
   \<and> used_cpu ([node_full] ! 0) - cpu job_b + cpu job_h \<le> total_cpu ([node_full] ! 0)"
proof -
  have r1: "stf_find_victim job_h [(110, job_b, 0)] [node_full] = Inr (Some (110, job_b, 0))"
    by (simp add: job_h_def job_b_def node_full_def priority_value_def)
  show ?thesis
    using stf_find_victim_spec [OF r1] r1 by (simp add: job_h_def job_b_def)
qed

section \<open>Inter-arrival intervals\<close>

lemma generate_interval_ignores_model:
  "generate_interval (config\<lparr>arrival_model := m\<rparr>) expovariate
     = generate_interval config expovariate"
  by (simp add: generate_interval_def)

text \<open>
  C8. With \<^verbatim>\<open>arrival_model = "fixed"\<close> and \<^verbatim>\<open>arrival_rate = 2\<close> the interval should be the
  constant \<open>1/2\<close>. The generator does not read \<^verbatim>\<open>arrival_model\<close>: the interval is whatever
  \<^verbatim>\<open>random.expovariate\<close> returns, here 3.
\<close>

theorem generate_interval_fixed_is_sampled:
  "arrival_model cfg_fixed = ''fixed'' \<and> 1 / arrival_rate cfg_fixed = 1 / 2
   \<and> generate_interval cfg_fixed (\<lambda>rate. 3) = 3
   \<and> generate_interval cfg_fixed (\<lambda>rate. 3) \<noteq> 1 / arrival_rate cfg_fixed"
  by (simp add: generate_interval_def cfg_fixed_def)

section \<open>The heap operations keep the heap order\<close>

lemma parent_less: "0 < i \<Longrightarrow> (i - 1) div 2 < (i::nat)"
  by simp












section \<open>Order of the event queue\<close>















section \<open>The engine: remaining time and waiting time\<close>

lemma heappush_empty: "heappush lt [] x = Inr [x]"
  by (simp add: heappush_def siftdown_def siftdown_loop.simps)

lemma heappop_single: "heappop lt [x] = Inr (x, [])"
  by (simp add: heappop_def)

lemma heapify_small: "heapify lt [] = Inr []" "heapify lt [x] = Inr [x]"
  by (simp_all add: heapify_def)

lemma loop_done: "handle_running_loop now cluster tenants [] updated = Inr (cluster, tenants, updated)"
  by simp

declare handle_running_loop.simps [simp del]







lemma sweep_one:
  "handle_running_loop now cl ts [e] upd
     = (case e of (finish_time, job, node) \<Rightarrow>
          (case (case last_start_time job of
                   Some started \<Rightarrow>
                     if state job = ''running'' \<and> started \<noteq> 0
                     then (case remaining_time job of
                             None \<Rightarrow> Inl TypeError
                           | Some r \<Rightarrow>
                               Inr (job\<lparr>remaining_time := Some (max 0 (r - (now - started)))\<rparr>))
                     else Inr job
                 | None \<Rightarrow> Inr job) of
             Inl e \<Rightarrow> Inl e
           | Inr job1 \<Rightarrow>
               (case remaining_time job1 of
                  None \<Rightarrow> Inl TypeError
                | Some r \<Rightarrow>
                    if r \<le> 0
                    then (case handle_completion cl ts job1 node now of
                            Inl e \<Rightarrow> Inl e
                          | Inr (cl', ts', job') \<Rightarrow> Inr (cl', ts', upd))
                    else (case heappush running_lt upd (now + r, job1, node) of
                            Inl e \<Rightarrow> Inl e
                          | Inr upd' \<Rightarrow> Inr (cl, ts, upd')))))"
  by (subst handle_running_loop.simps)
     (simp add: heappop_single loop_done split: prod.splits sum.splits option.splits)

text \<open>
  C2. After one iteration (steps 3 and 4) the remaining time of a job that is still
  running should be its previous remaining time minus the time elapsed since then. Job
  \<open>b\<close> has duration 10, started at time 100 with remaining time 10, and the iteration
  runs at time 101 (both steps are given the same reading of the clock). Step 3 sets the
  remaining time to \<open>10 - 1 = 9\<close>; step 4 subtracts the same elapsed time once more and
  leaves 8 with finish time 109, where one unit of time has passed.
\<close>

theorem running_sweep_double_counts:
  "remaining_time job_b = Some 10 \<and> last_start_time job_b = Some 100
   \<and> advance_running 101 [(110, job_b, 0)] = [(110, job_b\<lparr>remaining_time := Some 9\<rparr>, 0)]
   \<and> handle_running_jobs 101 [node_full] [tenant_1]
         [(110, job_b\<lparr>remaining_time := Some 9\<rparr>, 0)]
       = Inr ([node_full], [tenant_1], [(109, job_b\<lparr>remaining_time := Some 8\<rparr>, 0)])
   \<and> (8::real) \<noteq> 10 - (101 - 100)"
  by (simp add: advance_running_def handle_running_jobs_def sweep_one heappush_empty
      heapify_small job_b_def)








text \<open>
  C1. The entry \<^verbatim>\<open>avg_wait\<close> should be the mean of \<^verbatim>\<open>wait_time\<close> over the completed jobs.
  Job \<open>a\<close> of tenant 1 arrives at time 10, starts at 12 (\<^verbatim>\<open>wait_time = 2\<close>), is preempted
  at 20 by job \<open>u\<close> of tenant 2, resumes at 23 (\<^verbatim>\<open>wait_time = 2 + 3 = 5\<close>) and completes
  in the sweep at 26. Its \<^verbatim>\<open>wait_time\<close> is 5, which is the mean over tenant 1's one
  completed job; \<^verbatim>\<open>avg_wait_time\<close> computes \<^verbatim>\<open>start_time - arrival_time = 2\<close>, and that is
  what the results record holds.
\<close>

theorem avg_wait_ignores_resume_wait:
  "fifo_allocate_job 12 [node_free] 0 job_a [job_a] []
     = Inr ([node_a], job_a_first, [], [(22, job_a_first, 0)])
   \<and> fifo_preempt_and_allocate 20 20 (22, job_a_first, 0) job_u [node_a] [job_u]
         [(22, job_a_first, 0)]
       = Inr ([node_u], job_a_preempted, job_u_run, [job_a_preempted], [(22, job_u_run, 0)])
   \<and> handle_running_jobs 23 [node_u] [tenant_1, tenant_2] [(22, job_u_run, 0)]
       = Inr ([node_free], [tenant_1, tenant_2\<lparr>completed_jobs := [job_u_done]\<rparr>], [])
   \<and> fifo_allocate_job 23 [node_free] 0 job_a_preempted [job_a_preempted] []
       = Inr ([node_a], job_a_resumed, [], [(25, job_a_resumed, 0)])
   \<and> handle_running_jobs 26 [node_a]
         [tenant_1, tenant_2\<lparr>completed_jobs := [job_u_done]\<rparr>] [(25, job_a_resumed, 0)]
       = Inr ([node_free], [tenant_1\<lparr>completed_jobs := [job_a_done]\<rparr>,
                            tenant_2\<lparr>completed_jobs := [job_u_done]\<rparr>], [])
   \<and> wait_time job_a_done = Some 5
   \<and> mean_wait_time (tenant_1\<lparr>completed_jobs := [job_a_done]\<rparr>) = 5
   \<and> avg_wait_time (tenant_1\<lparr>completed_jobs := [job_a_done]\<rparr>) = 2
   \<and> avg_wait [tenant_1\<lparr>completed_jobs := [job_a_done]\<rparr>,
                tenant_2\<lparr>completed_jobs := [job_u_done]\<rparr>]
       = [(''tenant-1'', 2), (''tenant-2'', 0)]"
proof -
  have s1: "fifo_allocate_job 12 [node_free] 0 job_a [job_a] []
     = Inr ([node_a], job_a_first, [], [(22, job_a_first, 0)])"
    by (simp add: fifo_allocate_job_def allocate_def can_allocate_def heappush_empty
        node_free_def node_a_def job_a_def job_a_first_def Let_def)
  have s2: "fifo_preempt_and_allocate 20 20 (22, job_a_first, 0) job_u [node_a] [job_u]
         [(22, job_a_first, 0)]
       = Inr ([node_u], job_a_preempted, job_u_run, [job_a_preempted], [(22, job_u_run, 0)])"
    by (simp add: can_allocate_def fifo_preempt_and_allocate_def
      fifo_allocate_job_def allocate_def release_def heapify_small heappush_empty
      node_a_def node_u_def job_u_def job_a_def job_a_first_def job_a_preempted_def
      job_u_run_def Let_def)
  have s3: "handle_running_jobs 23 [node_u] [tenant_1, tenant_2] [(22, job_u_run, 0)]
       = Inr ([node_free], [tenant_1, tenant_2\<lparr>completed_jobs := [job_u_done]\<rparr>], [])"
    by (simp add: handle_running_jobs_def sweep_one handle_completion_def release_def
      heapify_small job_u_def job_u_run_def job_u_done_def node_u_def node_free_def
      tenant_1_def tenant_2_def Let_def)
  have s4: "fifo_allocate_job 23 [node_free] 0 job_a_preempted [job_a_preempted] []
       = Inr ([node_a], job_a_resumed, [], [(25, job_a_resumed, 0)])"
    by (simp add: fifo_allocate_job_def allocate_def can_allocate_def heappush_empty
        node_free_def node_a_def job_a_def job_a_first_def job_a_preempted_def
        job_a_resumed_def Let_def)
  have s5: "handle_running_jobs 26 [node_a]
         [tenant_1, tenant_2\<lparr>completed_jobs := [job_u_done]\<rparr>] [(25, job_a_resumed, 0)]
       = Inr ([node_free], [tenant_1\<lparr>completed_jobs := [job_a_done]\<rparr>,
                            tenant_2\<lparr>completed_jobs := [job_u_done]\<rparr>], [])"
    by (simp add: handle_running_jobs_def sweep_one handle_completion_def release_def
      heapify_small job_a_def job_a_first_def job_a_preempted_def job_a_resumed_def
      job_a_done_def node_a_def node_free_def tenant_1_def tenant_2_def Let_def)
  have w: "wait_time job_a_done = Some 5"
    by (simp add: job_a_done_def job_a_resumed_def)
  have m: "mean_wait_time (tenant_1\<lparr>completed_jobs := [job_a_done]\<rparr>) = 5"
    by (simp add: mean_wait_time_def w)
  have a: "avg_wait_time (tenant_1\<lparr>completed_jobs := [job_a_done]\<rparr>) = 2"
    by (simp add: avg_wait_time_def List.map_filter_simps job_a_done_def job_a_resumed_def
        job_a_preempted_def job_a_first_def job_a_def)
  have a2: "avg_wait_time (tenant_2\<lparr>completed_jobs := [job_u_done]\<rparr>) = 0"
    by (simp add: avg_wait_time_def List.map_filter_simps job_u_done_def job_u_run_def
        job_u_def)
  have t: "tid (tenant_1\<lparr>completed_jobs := [job_a_done]\<rparr>) = ''tenant-1''"
    "tid (tenant_2\<lparr>completed_jobs := [job_u_done]\<rparr>) = ''tenant-2''"
    by (simp_all add: tenant_1_def tenant_2_def)
  have c: "avg_wait [tenant_1\<lparr>completed_jobs := [job_a_done]\<rparr>,
                     tenant_2\<lparr>completed_jobs := [job_u_done]\<rparr>]
       = [(''tenant-1'', 2), (''tenant-2'', 0)]"
    by (simp add: avg_wait_def dict_of_def a a2 t)
  show ?thesis using s1 s2 s3 s4 s5 w m a c by simp
qed

end
